theory Spec2Isabelle
  imports Main "HOL-Library.Sublist"
begin

section \<open>Python values used by \<open>process_analyzer.py\<close>\<close>

text \<open>
  A Python \<open>str\<close> is a sequence of Unicode code points, so a string is a list of
  code points and \<open>length\<close> counts what Python's \<open>len\<close> counts. ASCII text is
  written through \<open>str\<close>; the accented letters of the source's literals are given by
  their code points (all of them below 256).
\<close>

type_synonym pystr = "nat list"

definition str :: "string \<Rightarrow> pystr" where
  "str s = map of_char s"

text \<open>The exceptions the modelled fragment of Python can raise; \<open>LibraryError\<close>
  stands for whatever an external library call raises.\<close>

datatype error =
  ValueError | IndexError | KeyError | TypeError | AttributeError | LibraryError pystr

definition bind :: "error + 'a \<Rightarrow> ('a \<Rightarrow> error + 'b) \<Rightarrow> error + 'b" where
  "bind r f = (case r of Inl e \<Rightarrow> Inl e | Inr v \<Rightarrow> f v)"

subsection \<open>\<open>sub in s\<close>, \<open>s.split(sep)\<close>, \<open>xs[i]\<close>, \<open>s.strip()\<close>\<close>

text \<open>\<open>sub in s\<close> on strings holds when \<open>sub\<close> occurs in \<open>s\<close> as a contiguous
  block, which is \<^const>\<open>sublist\<close>.\<close>

definition py_in :: "pystr \<Rightarrow> pystr \<Rightarrow> bool" where
  "py_in sub s = sublist sub s"

text \<open>
  \<open>s.split(sep)\<close> scans \<open>s\<close> from the left; \<open>cur\<close> is the field collected so far.
  Where \<open>sep\<close> matches, the field is closed and the scan resumes after the match, so
  matches do not overlap. An empty separator raises \<open>ValueError\<close>.
\<close>

fun split_from :: "'a list \<Rightarrow> 'a list \<Rightarrow> 'a list \<Rightarrow> 'a list list" where
  "split_from sep cur [] = [cur]"
| "split_from sep cur (c # cs) =
     (if sep \<noteq> [] \<and> prefix sep (c # cs)
      then cur # split_from sep [] (drop (length sep - 1) cs)
      else split_from sep (cur @ [c]) cs)"

definition py_split :: "pystr \<Rightarrow> pystr \<Rightarrow> error + pystr list" where
  "py_split s sep = (if sep = [] then Inl ValueError else Inr (split_from sep [] s))"

text \<open>\<open>xs[i]\<close>: a negative index counts from the end, an index out of range raises
  \<open>IndexError\<close>.\<close>

definition py_index :: "'a list \<Rightarrow> int \<Rightarrow> error + 'a" where
  "py_index xs i =
     (if 0 \<le> i \<and> i < int (length xs) then Inr (xs ! nat i)
      else if i < 0 \<and> - int (length xs) \<le> i then Inr (xs ! nat (int (length xs) + i))
      else Inl IndexError)"

text \<open>\<open>s.strip()\<close> removes leading and trailing white space; \<open>py_isspace\<close> is the
  set of code points that \<open>str.isspace\<close> accepts.\<close>

definition py_isspace :: "nat \<Rightarrow> bool" where
  "py_isspace c \<longleftrightarrow>
     (9 \<le> c \<and> c \<le> 13) \<or> (28 \<le> c \<and> c \<le> 32) \<or> c = 0x85 \<or> c = 0xA0 \<or> c = 0x1680
     \<or> (0x2000 \<le> c \<and> c \<le> 0x200A) \<or> c = 0x2028 \<or> c = 0x2029 \<or> c = 0x202F
     \<or> c = 0x205F \<or> c = 0x3000"

definition py_strip :: "pystr \<Rightarrow> pystr" where
  "py_strip s = rev (dropWhile py_isspace (rev (dropWhile py_isspace s)))"

section \<open>The report templater: \<open>generate_sankhya_flow_script\<close>\<close>

subsection \<open>The literals of the source\<close>

definition marker :: pystr where
  "marker = str ''Atividade: ''"

definition comma :: pystr where
  "comma = str '',''"

definition header_line :: pystr where
  "header_line = str ''// Script de Automa'' @ [0xE7, 0xE3]
     @ str ''o Sankhya Flow gerado por IA'' @ [10, 10]"

definition purpose_line :: pystr where
  "purpose_line = str ''// Este script pode ser usado para automatizar otimiza''
     @ [0xE7, 0xF5] @ str ''es de processos identificadas.'' @ [10, 10]"

definition found_line :: pystr where
  "found_line = str ''// Gargalos identificados e sugest'' @ [0xF5]
     @ str ''es de otimiza'' @ [0xE7, 0xE3] @ str ''o:'' @ [10]"

definition none_line :: pystr where
  "none_line = str ''// Nenhum gargalo significativo identificado para gerar automa''
     @ [0xE7, 0xF5] @ str ''es.'' @ [10]"

definition footer_line :: pystr where
  "footer_line = str ''// Para mais informa'' @ [0xE7, 0xF5]
     @ str ''es sobre as APIs JavaScript do Sankhya, consulte a documenta''
     @ [0xE7, 0xE3] @ str ''o oficial.'' @ [10]"

text \<open>The f-strings of lines 118 and 121 to 129, one definition per line of output.\<close>

definition comment_line :: "pystr \<Rightarrow> pystr" where
  "comment_line bottleneck = str ''// '' @ bottleneck @ [10]"

definition example_line :: "pystr \<Rightarrow> pystr" where
  "example_line activity_name = str ''// Exemplo de automa'' @ [0xE7, 0xE3]
     @ str ''o para a atividade '' @ [0x27] @ activity_name @ [0x27] @ str '':'' @ [10]"

definition var_line :: pystr where
  "var_line = str ''// var query = getQuery();'' @ [10]"

definition query_line :: "pystr \<Rightarrow> pystr" where
  "query_line activity_name = str ''// query.nativeSelect('' @ [0x22]
     @ str ''SELECT * FROM TGFTAB WHERE DESCRICAO = '' @ [0x5C, 0x27] @ activity_name
     @ [0x5C, 0x27, 0x22] @ str '');'' @ [10]"

definition if_line :: pystr where
  "if_line = str ''// if (query.next()) { '' @ [10]"

definition message_line :: "pystr \<Rightarrow> pystr" where
  "message_line activity_name = str ''//     mensagem = '' @ [0x27] @ str ''Atividade ''
     @ activity_name @ str '' encontrada. Iniciando otimiza'' @ [0xE7, 0xE3]
     @ str ''o...'' @ [0x27] @ str '';'' @ [10]"

definition logic_line :: pystr where
  "logic_line = str ''//     // Adicione aqui a l'' @ [0xF3] @ str ''gica de automa''
     @ [0xE7, 0xE3] @ str ''o espec'' @ [0xED] @ str ''fica para a otimiza''
     @ [0xE7, 0xE3] @ str ''o desta atividade'' @ [10]"

definition else_line :: pystr where
  "else_line = str ''// } else { '' @ [10]"

definition error_line :: "pystr \<Rightarrow> pystr" where
  "error_line activity_name = str ''//     mostraErro('' @ [0x27] @ str ''Atividade ''
     @ activity_name @ str '' n'' @ [0xE3] @ str ''o encontrada para otimiza''
     @ [0xE7, 0xE3] @ str ''o.'' @ [0x27] @ str '');'' @ [10]"

definition close_line :: pystr where
  "close_line = str ''// }'' @ [10, 10]"

definition template :: "pystr \<Rightarrow> pystr" where
  "template activity_name =
     example_line activity_name @ var_line @ query_line activity_name @ if_line
     @ message_line activity_name @ logic_line @ else_line @ error_line activity_name
     @ close_line"

subsection \<open>The function\<close>

text \<open>Line 120: \<open>bottleneck.split("Atividade: ")[1].split(",")[0].strip()\<close>.\<close>

definition activity_name_of :: "pystr \<Rightarrow> error + pystr" where
  "activity_name_of bottleneck =
     bind (py_split bottleneck marker) (\<lambda>parts.
     bind (py_index parts 1) (\<lambda>rest.
     bind (py_split rest comma) (\<lambda>fields.
     bind (py_index fields 0) (\<lambda>field.
     Inr (py_strip field)))))"

text \<open>The \<open>for\<close> loop of lines 117 to 129, threading \<open>script_content\<close>.\<close>

fun for_bottleneck :: "pystr \<Rightarrow> pystr list \<Rightarrow> error + pystr" where
  "for_bottleneck script_content [] = Inr script_content"
| "for_bottleneck script_content (bottleneck # bottlenecks) =
     (let script_content = script_content @ comment_line bottleneck
      in if py_in marker bottleneck
         then bind (activity_name_of bottleneck) (\<lambda>activity_name.
                for_bottleneck (script_content @ template activity_name) bottlenecks)
         else for_bottleneck script_content bottlenecks)"

definition generate_sankhya_flow_script :: "pystr list \<Rightarrow> error + pystr" where
  "generate_sankhya_flow_script bottlenecks =
     (let script_content = header_line @ purpose_line
      in bind (if bottlenecks \<noteq> []
               then for_bottleneck (script_content @ found_line) bottlenecks
               else Inr (script_content @ none_line))
           (\<lambda>script_content. Inr (script_content @ footer_line)))"

section \<open>The analyzer and the libraries it calls\<close>

text \<open>
  A data frame is its columns in order, each a name with its cells; a cell is the text
  of its value, which is all the source ever reads of one.
\<close>

type_synonym frame = "(pystr \<times> pystr list) list"

text \<open>
  \<open>self.event_log\<close> holds either the event log object that pm4py's
  \<open>convert_to_event_log\<close> returns, which is opaque here, or a data frame that a caller
  has assigned to the attribute.
\<close>

datatype 'log log_object = EventLog 'log | DataFrame frame

text \<open>
  \<open>log[key]\<close> with a string key. An event log is a sequence of traces and accepts
  integer indices only, so a string raises \<open>TypeError\<close>. On a data frame the result
  is the column of that name as a series; an absent name raises \<open>KeyError\<close>, and a
  name borne by several columns selects all of them, as a data frame again.
\<close>

datatype selection = Series "pystr list" | Columns frame

fun py_getitem :: "'log log_object \<Rightarrow> pystr \<Rightarrow> error + selection" where
  "py_getitem (EventLog log) key = Inl TypeError"
| "py_getitem (DataFrame dataframe) key =
     (case filter (\<lambda>(name, column). name = key) dataframe of
        [] \<Rightarrow> Inl KeyError
      | [(name, column)] \<Rightarrow> Inr (Series column)
      | c # c' # cs \<Rightarrow> Inr (Columns (c # c' # cs)))"

text \<open>\<open>column.unique()\<close> keeps the first occurrence of every value, in order of
  appearance; \<open>seen\<close> holds the values met so far. A data frame has no such method:
  \<open>AttributeError\<close>.\<close>

fun unique_from :: "'a list \<Rightarrow> 'a list \<Rightarrow> 'a list" where
  "unique_from seen [] = []"
| "unique_from seen (x # xs) =
     (if x \<in> set seen then unique_from seen xs else x # unique_from (seen @ [x]) xs)"

definition unique :: "'a list \<Rightarrow> 'a list" where
  "unique column = unique_from [] column"

fun py_unique :: "selection \<Rightarrow> error + pystr list" where
  "py_unique (Series column) = Inr (unique column)"
| "py_unique (Columns dataframe) = Inl AttributeError"

text \<open>\<open>dataframe.rename(columns=mapping)\<close> replaces the name of every column that
  the mapping mentions and leaves the cells alone.\<close>

definition rename :: "(pystr \<times> pystr) list \<Rightarrow> frame \<Rightarrow> frame" where
  "rename mapping dataframe =
     map (\<lambda>(name, column).
            ((case map_of mapping name of None \<Rightarrow> name | Some new_name \<Rightarrow> new_name), column))
         dataframe"

definition pm4py_columns :: "(pystr \<times> pystr) list" where
  "pm4py_columns =
     [(str ''case_id'', str ''case:concept:name''),
      (str ''activity'', str ''concept:name''),
      (str ''timestamp'', str ''time:timestamp'')]"

text \<open>
  A \<open>dict\<close> is the list of its items in insertion order; \<open>metrics.get(key, fallback)\<close>
  reads one. A metric is represented by the text that formatting it in an f-string yields.
\<close>

type_synonym metrics = "(pystr \<times> pystr) list"

definition dict_get :: "metrics \<Rightarrow> pystr \<Rightarrow> pystr \<Rightarrow> pystr" where
  "dict_get d key fallback = (case map_of d key of None \<Rightarrow> fallback | Some v \<Rightarrow> v)"

text \<open>
  The calls into pandas and pm4py are parameters of the model: each may raise, and what
  it returns is not constrained. \<open>read_csv\<close> stands for the call of line 21 with its
  fixed \<open>parse_dates\<close> and \<open>dtype\<close> arguments. The analysis functions receive
  whatever \<open>self.event_log\<close> holds.
\<close>

record ('log, 'net) externals =
  read_csv :: "pystr \<Rightarrow> error + frame"
  convert_to_event_log :: "frame \<Rightarrow> error + 'log"
  alpha_miner_apply :: "'log log_object \<Rightarrow> error + 'net"
  bottleneck_analysis_apply :: "'log log_object \<Rightarrow> error + (pystr \<times> metrics) list"

record 'log analyzer =
  log_path :: pystr
  event_log :: "'log log_object option"

definition init :: "pystr \<Rightarrow> 'log analyzer" where
  "init path = \<lparr>log_path = path, event_log = None\<rparr>"

definition load_and_convert_log ::
    "('log, 'net) externals \<Rightarrow> 'log analyzer \<Rightarrow> error + ('log log_object \<times> 'log analyzer)" where
  "load_and_convert_log ext self =
     bind (read_csv ext (log_path self)) (\<lambda>dataframe.
     let dataframe = rename pm4py_columns dataframe
     in bind (convert_to_event_log ext dataframe) (\<lambda>log.
        Inr (EventLog log, self\<lparr>event_log := Some (EventLog log)\<rparr>)))"

text \<open>\<open>if self.event_log is None: self.load_and_convert_log()\<close>, returning the log
  that \<open>self.event_log\<close> holds afterwards.\<close>

definition loaded_log ::
    "('log, 'net) externals \<Rightarrow> 'log analyzer \<Rightarrow> error + ('log log_object \<times> 'log analyzer)" where
  "loaded_log ext self =
     (case event_log self of
        None \<Rightarrow> load_and_convert_log ext self
      | Some log \<Rightarrow> Inr (log, self))"

definition discover_process_model ::
    "('log, 'net) externals \<Rightarrow> 'log analyzer \<Rightarrow> error + ('net \<times> 'log analyzer)" where
  "discover_process_model ext self =
     bind (loaded_log ext self) (\<lambda>(log, self).
     bind (alpha_miner_apply ext log) (\<lambda>net.
     Inr (net, self)))"

subsection \<open>\<open>identify_bottlenecks\<close>\<close>

definition bottleneck_line :: "pystr \<Rightarrow> metrics \<Rightarrow> pystr" where
  "bottleneck_line activity m =
     str ''Atividade: '' @ activity @ str '', Tempo M'' @ [0xE9] @ str ''dio de Espera: ''
     @ dict_get m (str ''avg_waiting_time'') (str ''N/A'')
     @ str '', Tempo M'' @ [0xE9] @ str ''dio de Servi'' @ [0xE7] @ str ''o: ''
     @ dict_get m (str ''avg_service_time'') (str ''N/A'')"

definition no_bottleneck :: pystr where
  "no_bottleneck = str ''Nenhum gargalo significativo identificado.''"

fun for_items :: "pystr list \<Rightarrow> (pystr \<times> metrics) list \<Rightarrow> pystr list" where
  "for_items bottleneck_info [] = bottleneck_info"
| "for_items bottleneck_info ((activity, m) # items) =
     for_items (bottleneck_info @ [bottleneck_line activity m]) items"

definition bottleneck_info_of :: "(pystr \<times> metrics) list \<Rightarrow> pystr list" where
  "bottleneck_info_of bottlenecks =
     (if bottlenecks \<noteq> [] then for_items [] bottlenecks else [] @ [no_bottleneck])"

definition identify_bottlenecks ::
    "('log, 'net) externals \<Rightarrow> 'log analyzer \<Rightarrow> error + (pystr list \<times> 'log analyzer)" where
  "identify_bottlenecks ext self =
     bind (loaded_log ext self) (\<lambda>(log, self).
     bind (bottleneck_analysis_apply ext log) (\<lambda>bottlenecks.
     Inr (bottleneck_info_of bottlenecks, self)))"

subsection \<open>\<open>generate_bpmn_xml_content\<close>\<close>

text \<open>
  The BPMN library is a parameter as well: a diagram object of some type \<open>'d\<close> and the
  methods the source calls on it. A method takes the diagram and returns it updated, or
  raises. The source ignores what the \<open>add\<close> methods return.
\<close>

record ('d, 'x) bpmn_python =
  BPMNDiagram :: "error + 'd"
  add_process_to_diagram :: "'d \<Rightarrow> pystr \<Rightarrow> pystr \<Rightarrow> error + 'd"
  add_task_to_process :: "'d \<Rightarrow> pystr \<Rightarrow> pystr \<Rightarrow> pystr \<Rightarrow> error + 'd"
  add_start_event_to_process :: "'d \<Rightarrow> pystr \<Rightarrow> pystr \<Rightarrow> pystr \<Rightarrow> error + 'd"
  add_end_event_to_process :: "'d \<Rightarrow> pystr \<Rightarrow> pystr \<Rightarrow> pystr \<Rightarrow> error + 'd"
  add_sequence_flow_to_process :: "'d \<Rightarrow> pystr \<Rightarrow> pystr \<Rightarrow> pystr \<Rightarrow> error + 'd"
  get_xml_as_string :: "'d \<Rightarrow> error + 'x"

definition process_id :: pystr where
  "process_id = str ''Process_1''"

definition process_name :: pystr where
  "process_name = str ''Processo Descoberto''"

definition start_event_id :: pystr where
  "start_event_id = str ''StartEvent_1''"

definition start_event_name :: pystr where
  "start_event_name = str ''In'' @ [0xED] @ str ''cio''"

definition end_event_id :: pystr where
  "end_event_id = str ''EndEvent_1''"

definition end_event_name :: pystr where
  "end_event_name = str ''Fim''"

text \<open>Lines 91 and 92: one task per activity, the label being both id and name.\<close>

fun for_activity :: "('d, 'x) bpmn_python \<Rightarrow> 'd \<Rightarrow> pystr list \<Rightarrow> error + 'd" where
  "for_activity lib d [] = Inr d"
| "for_activity lib d (activity # activities) =
     bind (add_task_to_process lib d process_id activity activity) (\<lambda>d.
     for_activity lib d activities)"

text \<open>\<open>range(n)\<close>, empty for \<open>n \<le> 0\<close>.\<close>

definition py_range :: "int \<Rightarrow> int list" where
  "py_range n = map int [0 ..< nat n]"

text \<open>Lines 104 and 105: the flow from \<open>activities[i]\<close> to \<open>activities[i+1]\<close>.\<close>

fun for_i :: "('d, 'x) bpmn_python \<Rightarrow> 'd \<Rightarrow> pystr list \<Rightarrow> int list \<Rightarrow> error + 'd" where
  "for_i lib d activities [] = Inr d"
| "for_i lib d activities (i # is) =
     bind (py_index activities i) (\<lambda>source.
     bind (py_index activities (i + 1)) (\<lambda>target.
     bind (add_sequence_flow_to_process lib d process_id source target) (\<lambda>d.
     for_i lib d activities is)))"

text \<open>Line 90 has no test for \<open>self.event_log is None\<close>: subscripting \<open>None\<close>
  raises \<open>TypeError\<close>.\<close>

definition generate_bpmn_xml_content ::
    "('d, 'x) bpmn_python \<Rightarrow> 'log analyzer \<Rightarrow> error + 'x" where
  "generate_bpmn_xml_content lib self =
     bind (BPMNDiagram lib) (\<lambda>d.
     bind (add_process_to_diagram lib d process_id process_name) (\<lambda>d.
     bind (case event_log self of
             None \<Rightarrow> Inl TypeError
           | Some log \<Rightarrow> py_getitem log (str ''concept:name'')) (\<lambda>column.
     bind (py_unique column) (\<lambda>activities.
     bind (for_activity lib d activities) (\<lambda>d.
     bind (add_start_event_to_process lib d process_id start_event_id start_event_name) (\<lambda>d.
     bind (add_end_event_to_process lib d process_id end_event_id end_event_name) (\<lambda>d.
     bind (if int (length activities) > 0
           then bind (py_index activities 0) (\<lambda>first.
                bind (add_sequence_flow_to_process lib d process_id start_event_id first) (\<lambda>d.
                bind (for_i lib d activities (py_range (int (length activities) - 1))) (\<lambda>d.
                bind (py_index activities (- 1)) (\<lambda>final.
                add_sequence_flow_to_process lib d process_id final end_event_id))))
           else Inr d) (\<lambda>d.
     get_xml_as_string lib d))))))))"

text \<open>
  To observe what the source puts into the diagram, the library is instantiated by one
  that only records: the diagram is the processes, nodes and sequence flows added so
  far, each in the order of the calls, no call raises, and the serialisation is the
  record itself.
\<close>

datatype node_kind = Task | StartEvent | EndEvent

record node =
  kind :: node_kind
  process :: pystr
  node_id :: pystr
  node_name :: pystr

record diagram =
  processes :: "(pystr \<times> pystr) list"
  nodes :: "node list"
  flows :: "(pystr \<times> pystr \<times> pystr) list"

definition add_node :: "node_kind \<Rightarrow> diagram \<Rightarrow> pystr \<Rightarrow> pystr \<Rightarrow> pystr \<Rightarrow> error + diagram" where
  "add_node k d pid nid name =
     Inr (d\<lparr>nodes := nodes d @ [\<lparr>kind = k, process = pid, node_id = nid, node_name = name\<rparr>]\<rparr>)"

definition recording :: "(diagram, diagram) bpmn_python" where
  "recording =
     \<lparr>BPMNDiagram = Inr \<lparr>processes = [], nodes = [], flows = []\<rparr>,
      add_process_to_diagram = (\<lambda>d pid name. Inr (d\<lparr>processes := processes d @ [(pid, name)]\<rparr>)),
      add_task_to_process = add_node Task,
      add_start_event_to_process = add_node StartEvent,
      add_end_event_to_process = add_node EndEvent,
      add_sequence_flow_to_process =
        (\<lambda>d pid source target. Inr (d\<lparr>flows := flows d @ [(pid, source, target)]\<rparr>)),
      get_xml_as_string = Inr\<rparr>"

text \<open>
  The calls recorded in a diagram, issued again on any library in the order in which the
  source issues them: the process, the nodes, the flows, the serialisation.
\<close>

fun replay_nodes :: "('d, 'x) bpmn_python \<Rightarrow> 'd \<Rightarrow> node list \<Rightarrow> error + 'd" where
  "replay_nodes lib d [] = Inr d"
| "replay_nodes lib d (n # ns) =
     bind ((case kind n of
              Task \<Rightarrow> add_task_to_process lib
            | StartEvent \<Rightarrow> add_start_event_to_process lib
            | EndEvent \<Rightarrow> add_end_event_to_process lib) d (process n) (node_id n) (node_name n))
          (\<lambda>d. replay_nodes lib d ns)"

fun replay_flows ::
    "('d, 'x) bpmn_python \<Rightarrow> 'd \<Rightarrow> (pystr \<times> pystr \<times> pystr) list \<Rightarrow> error + 'd" where
  "replay_flows lib d [] = Inr d"
| "replay_flows lib d ((pid, source, target) # fs) =
     bind (add_sequence_flow_to_process lib d pid source target) (\<lambda>d. replay_flows lib d fs)"

fun replay_processes ::
    "('d, 'x) bpmn_python \<Rightarrow> 'd \<Rightarrow> (pystr \<times> pystr) list \<Rightarrow> error + 'd" where
  "replay_processes lib d [] = Inr d"
| "replay_processes lib d ((pid, name) # ps) =
     bind (add_process_to_diagram lib d pid name) (\<lambda>d. replay_processes lib d ps)"

definition replay :: "('d, 'x) bpmn_python \<Rightarrow> diagram \<Rightarrow> error + 'x" where
  "replay lib g =
     bind (BPMNDiagram lib) (\<lambda>d.
     bind (replay_processes lib d (processes g)) (\<lambda>d.
     bind (replay_nodes lib d (nodes g)) (\<lambda>d.
     bind (replay_flows lib d (flows g)) (\<lambda>d.
     get_xml_as_string lib d))))"

subsection \<open>The script's entry point\<close>

text \<open>Lines 137 to 150; the result is the text written to \<open>sankhya_flow_script.js\<close>.\<close>

definition main :: "('log, 'net) externals \<Rightarrow> error + pystr" where
  "main ext =
     (let analyzer = init (str ''sankhya_processed_data.csv'')
      in bind (load_and_convert_log ext analyzer) (\<lambda>(event_log, analyzer).
         bind (discover_process_model ext analyzer) (\<lambda>(net, analyzer).
         bind (identify_bottlenecks ext analyzer) (\<lambda>(bottlenecks, analyzer).
         bind (generate_sankhya_flow_script bottlenecks) (\<lambda>sankhya_script.
         Inr sankhya_script)))))"

section \<open>Splitting and the activity name\<close>

text \<open>The field under construction is carried along unchanged until a match closes it.\<close>

lemma split_from_cur: "split_from sep cur s = (cur @ hd (split_from sep [] s)) # tl (split_from sep [] s)"
proof (induction s arbitrary: cur)
  case Nil
  then show ?case by simp
next
  case (Cons c cs)
  show ?case
  proof (cases "sep \<noteq> [] \<and> prefix sep (c # cs)")
    case True
    then show ?thesis by simp
  next
    case False
    have a: "split_from sep (cur @ [c]) cs = ((cur @ [c]) @ hd (split_from sep [] cs)) # tl (split_from sep [] cs)"
      by (rule Cons.IH)
    have b: "split_from sep [c] cs = ([c] @ hd (split_from sep [] cs)) # tl (split_from sep [] cs)"
      by (rule Cons.IH)
    show ?thesis using False a b by simp
  qed
qed

lemma split_from_hd_takeWhile: "hd (split_from [c] cur s) = cur @ takeWhile (\<lambda>x. x \<noteq> c) s"
  by (induction s arbitrary: cur) auto

lemma split_from_nonempty: "split_from sep cur s \<noteq> []"
  by (induction s arbitrary: cur) auto

lemma split_from_no_match: "\<not> sublist sep s \<Longrightarrow> split_from sep cur s = [cur @ s]"
  by (induction s arbitrary: cur) (auto simp: sublist_Cons_right)

text \<open>If no match starts before position \<open>length pre\<close> and one starts there, the
  first field is \<open>pre\<close>; if none starts inside \<open>u\<close>, the first field reaches past
  \<open>u\<close>.\<close>

lemma split_from_first:
  "sep \<noteq> [] \<Longrightarrow> \<forall>i < length pre. \<not> prefix sep (drop i (pre @ sep @ r)) \<Longrightarrow>
   split_from sep cur (pre @ sep @ r) = (cur @ pre) # split_from sep [] r"
proof (induction pre arbitrary: cur)
  case Nil
  then show ?case by (cases sep) auto
next
  case (Cons p ps)
  have "\<not> prefix sep ((p # ps) @ sep @ r)" using Cons.prems(2) by force
  moreover have "\<forall>i < length ps. \<not> prefix sep (drop i (ps @ sep @ r))"
    using Cons.prems(2) by force
  ultimately show ?case using Cons.IH[of "cur @ [p]"] Cons.prems(1) by simp
qed

lemma split_from_past:
  "\<forall>i < length u. \<not> prefix sep (drop i (u @ v)) \<Longrightarrow>
   \<exists>t. hd (split_from sep cur (u @ v)) = cur @ u @ t"
proof (induction u arbitrary: cur)
  case Nil
  show ?case using split_from_cur[of sep cur v] by simp
next
  case (Cons p ps)
  have "\<not> prefix sep ((p # ps) @ v)" using Cons.prems by force
  moreover have "\<forall>i < length ps. \<not> prefix sep (drop i (ps @ v))"
    using Cons.prems by force
  ultimately show ?case using Cons.IH[of "cur @ [p]"] by simp
qed

lemma no_match_before:
  assumes "\<not> sublist sep name" "c \<notin> set sep"
  shows "\<forall>i < length (name @ [c]). \<not> prefix sep (drop i ((name @ [c]) @ rest))"
proof (intro allI impI notI)
  fix i assume i: "i < length (name @ [c])" and p: "prefix sep (drop i ((name @ [c]) @ rest))"
  have "drop i ((name @ [c]) @ rest) = drop i name @ c # rest" using i by simp
  with p have "prefix sep (drop i name) \<or> (\<exists>us. sep = drop i name @ us \<and> prefix us (c # rest))"
    by (simp add: prefix_append)
  then show False
  proof
    assume "prefix sep (drop i name)"
    then have "sublist sep name"
      using prefix_imp_sublist sublist_drop sublist_order.order.trans by blast
    with assms show False by simp
  next
    assume "\<exists>us. sep = drop i name @ us \<and> prefix us (c # rest)"
    then obtain us where us: "sep = drop i name @ us" "prefix us (c # rest)" by blast
    show False
    proof (cases us)
      case Nil
      then have "sublist sep name" using us by simp
      with assms show False by simp
    next
      case (Cons a list)
      then show ?thesis using us assms(2) by auto
    qed
  qed
qed

lemma split_from_two: "sep \<noteq> [] \<Longrightarrow> sublist sep s \<Longrightarrow> 2 \<le> length (split_from sep cur s)"
proof (induction s arbitrary: cur)
  case Nil
  then show ?case by simp
next
  case (Cons c cs)
  show ?case
  proof (cases "prefix sep (c # cs)")
    case True
    have "split_from sep [] (drop (length sep - 1) cs) \<noteq> []" by (rule split_from_nonempty)
    then have "1 \<le> length (split_from sep [] (drop (length sep - 1) cs))"
      by (simp add: Suc_le_eq)
    then show ?thesis using True Cons.prems(1) by simp
  next
    case False
    then have "sublist sep cs" using Cons.prems by (cases sep) (auto simp: sublist_Cons_right)
    then show ?thesis using False Cons.IH Cons.prems(1) by simp
  qed
qed

text \<open>The marker begins with a letter that occurs nowhere else in it, so two of its
  occurrences never overlap: the first occurrence in \<open>pre @ marker @ r\<close> is the one
  shown as soon as \<open>pre\<close> contains none.\<close>

lemma marker_first:
  assumes "\<not> sublist marker pre"
  shows "\<forall>i < length pre. \<not> prefix marker (drop i (pre @ marker @ r))"
proof (intro allI impI notI)
  fix i assume i: "i < length pre" and p: "prefix marker (drop i (pre @ marker @ r))"
  have "drop i (pre @ marker @ r) = drop i pre @ (marker @ r)" using i by simp
  with p have "prefix marker (drop i pre @ (marker @ r))" by simp
  then have "prefix marker (drop i pre)
      \<or> (\<exists>us. marker = drop i pre @ us \<and> prefix us (marker @ r))"
    using prefix_append[of marker "drop i pre" "marker @ r"] by blast
  then show False
  proof
    assume "prefix marker (drop i pre)"
    then have "sublist marker pre"
      using prefix_imp_sublist sublist_drop sublist_order.order.trans by blast
    with assms show False by simp
  next
    assume "\<exists>us. marker = drop i pre @ us \<and> prefix us (marker @ r)"
    then obtain us where us: "marker = drop i pre @ us" "prefix us (marker @ r)" by blast
    obtain d ds where d: "drop i pre = d # ds" using i by (cases "drop i pre") auto
    show False
    proof (cases us)
      case Nil
      then have "sublist marker pre" using us(1) by (metis append_Nil2 sublist_drop)
      with assms show False by simp
    next
      case (Cons u us')
      have "u = 65" using us(2) Cons by (simp add: marker_def str_def)
      have "tl marker = ds @ u # us'" using us(1) d Cons by (metis append_Cons list.sel(3))
      then have "u \<in> set (tl marker)" by simp
      then show False using \<open>u = 65\<close> by (simp add: marker_def str_def)
    qed
  qed
qed

lemma sublist_single: "sublist [c] xs \<longleftrightarrow> c \<in> set xs"
  by (induction xs) (auto simp: sublist_Cons_right)

lemma takeWhile_upto: "c \<notin> set a \<Longrightarrow> takeWhile (\<lambda>x. x \<noteq> c) (a @ c # u) = a"
  by (induction a) auto

lemma takeWhile_all: "c \<notin> set a \<Longrightarrow> takeWhile (\<lambda>x. x \<noteq> c) a = a"
  by (induction a) auto

lemma name_field:
  assumes t: "t = [] \<or> prefix comma t \<or> prefix marker t"
    and a: "\<not> sublist marker a" "\<not> sublist comma a"
  shows "takeWhile (\<lambda>x. x \<noteq> 44) (hd (split_from marker [] (a @ t))) = a"
proof -
  have c44: "44 \<notin> set a" using a(2) by (simp add: comma_def str_def sublist_single)
  have mne: "marker \<noteq> []" by (simp add: marker_def str_def)
  from t consider "t = []" | "prefix comma t" | "prefix marker t" by blast
  then show ?thesis
  proof cases
    case 1
    then show ?thesis using a(1) c44 by (simp add: split_from_no_match takeWhile_all)
  next
    case 2
    then obtain t' where t': "t = 44 # t'" by (auto simp: comma_def str_def prefix_def)
    have "44 \<notin> set marker" by (simp add: marker_def str_def)
    then have "\<forall>i < length (a @ [44]). \<not> prefix marker (drop i ((a @ [44]) @ t'))"
      using a(1) by (rule no_match_before[rotated])
    then obtain u where "hd (split_from marker [] ((a @ [44]) @ t')) = [] @ (a @ [44]) @ u"
      using split_from_past by blast
    then show ?thesis using t' c44 by (simp add: takeWhile_upto)
  next
    case 3
    then obtain t' where t': "t = marker @ t'" by (auto simp: prefix_def)
    have "split_from marker [] (a @ marker @ t') = ([] @ a) # split_from marker [] t'"
      by (rule split_from_first[OF mne marker_first[OF a(1)]])
    then show ?thesis using t' c44 by (simp add: takeWhile_all)
  qed
qed

lemma activity_name_of_eq:
  assumes "py_in marker b"
  shows "activity_name_of b =
    Inr (py_strip (takeWhile (\<lambda>x. x \<noteq> 44) (split_from marker [] b ! 1)))"
proof -
  have mne: "marker \<noteq> []" by (simp add: marker_def str_def)
  have "2 \<le> length (split_from marker [] b)"
    using mne assms unfolding py_in_def by (rule split_from_two)
  then have i1: "py_index (split_from marker [] b) 1 = Inr (split_from marker [] b ! 1)"
    by (simp add: py_index_def)
  have i0: "py_index (split_from [44] [] s) 0 = Inr (hd (split_from [44] [] s))" for s :: pystr
    using split_from_nonempty[of "[44]" "[]" s]
    by (cases "split_from [44] [] s") (simp_all add: py_index_def)
  show ?thesis
    using mne
    by (simp add: activity_name_of_def py_split_def bind_def i1 i0 comma_def str_def
        split_from_hd_takeWhile)
qed

text \<open>The name is the text after the first marker, up to the next comma, the next
  marker or the end of the line, whichever comes first, with white space stripped.\<close>

lemma activity_name_of_field:
  assumes "b = pre @ marker @ a @ t" "\<not> py_in marker pre" "\<not> py_in marker a"
    "\<not> py_in comma a" "t = [] \<or> prefix comma t \<or> prefix marker t"
  shows "py_in marker b" "activity_name_of b = Inr (py_strip a)"
proof -
  show m: "py_in marker b" using assms(1) by (simp add: py_in_def sublist_def) blast
  have mne: "marker \<noteq> []" by (simp add: marker_def str_def)
  have "split_from marker [] (pre @ marker @ a @ t) = ([] @ pre) # split_from marker [] (a @ t)"
    using assms(2) unfolding py_in_def by (intro split_from_first[OF mne] marker_first)
  then have "split_from marker [] b ! 1 = hd (split_from marker [] (a @ t))"
    using assms(1) split_from_nonempty[of marker "[]" "a @ t"]
    by (cases "split_from marker [] (a @ t)") simp_all
  then show "activity_name_of b = Inr (py_strip a)"
    using activity_name_of_eq[OF m] name_field[OF assms(5)] assms(3,4)
    by (simp add: py_in_def)
qed

section \<open>The loop over the bottleneck lines\<close>

lemma for_bottleneck_extends: "\<exists>body. for_bottleneck sc bs = Inr (sc @ body)"
proof (induction bs arbitrary: sc)
  case Nil
  show ?case by simp
next
  case (Cons b bs)
  show ?case
  proof (cases "py_in marker b")
    case True
    then obtain n where n: "activity_name_of b = Inr n" using activity_name_of_eq by blast
    obtain body where "for_bottleneck (sc @ comment_line b @ template n) bs
        = Inr ((sc @ comment_line b @ template n) @ body)"
      using Cons.IH by blast
    then show ?thesis using True n by (simp add: bind_def)
  next
    case False
    obtain body where "for_bottleneck (sc @ comment_line b) bs = Inr ((sc @ comment_line b) @ body)"
      using Cons.IH by blast
    then show ?thesis using False by simp
  qed
qed

lemma for_bottleneck_append:
  "for_bottleneck sc (xs @ ys) = bind (for_bottleneck sc xs) (\<lambda>sc'. for_bottleneck sc' ys)"
proof (induction xs arbitrary: sc)
  case Nil
  show ?case by (simp add: bind_def)
next
  case (Cons x xs)
  show ?case
  proof (cases "py_in marker x")
    case True
    then obtain n where n: "activity_name_of x = Inr n" using activity_name_of_eq by blast
    then show ?thesis using True Cons.IH by (simp add: bind_def)
  next
    case False
    then show ?thesis using Cons.IH by simp
  qed
qed

lemma for_bottleneck_block:
  assumes "py_in marker b" "activity_name_of b = Inr n" "b \<in> set bs"
  shows "\<exists>head tail. for_bottleneck sc bs = Inr (sc @ head @ comment_line b @ template n @ tail)"
proof -
  obtain xs ys where bs: "bs = xs @ b # ys" using assms(3) by (meson split_list)
  obtain head where h: "for_bottleneck sc xs = Inr (sc @ head)"
    using for_bottleneck_extends by blast
  obtain tail where t: "for_bottleneck ((sc @ head) @ comment_line b @ template n) ys
      = Inr (((sc @ head) @ comment_line b @ template n) @ tail)"
    using for_bottleneck_extends by blast
  have "for_bottleneck sc bs = Inr (sc @ head @ comment_line b @ template n @ tail)"
    using assms(1,2) h t by (simp add: bs for_bottleneck_append bind_def)
  then show ?thesis by blast
qed

lemma report_block:
  assumes "py_in marker b" "activity_name_of b = Inr n" "b \<in> set bs"
  shows "\<exists>head tail. generate_sankhya_flow_script bs =
    Inr (header_line @ purpose_line @ found_line @ head @ comment_line b @ template n @ tail
         @ footer_line)"
proof -
  obtain head tail where "for_bottleneck (header_line @ purpose_line @ found_line) bs =
      Inr ((header_line @ purpose_line @ found_line) @ head @ comment_line b @ template n @ tail)"
    using for_bottleneck_block[OF assms] by blast
  moreover have "bs \<noteq> []" using assms(3) by auto
  ultimately have "generate_sankhya_flow_script bs =
    Inr (header_line @ purpose_line @ found_line @ head @ comment_line b @ template n @ tail
         @ footer_line)"
    by (simp add: generate_sankhya_flow_script_def bind_def)
  then show ?thesis by blast
qed

lemma report_found:
  assumes "bs \<noteq> []"
  shows "\<exists>body. generate_sankhya_flow_script bs =
    Inr (header_line @ purpose_line @ found_line @ body @ footer_line)"
proof -
  obtain body where "for_bottleneck (header_line @ purpose_line @ found_line) bs =
      Inr ((header_line @ purpose_line @ found_line) @ body)"
    using for_bottleneck_extends by blast
  then have "generate_sankhya_flow_script bs =
    Inr (header_line @ purpose_line @ found_line @ body @ footer_line)"
    using assms by (simp add: generate_sankhya_flow_script_def bind_def)
  then show ?thesis by blast
qed

lemma found_not_none: "found_line @ xs \<noteq> none_line @ ys"
  by (simp add: found_line_def none_line_def str_def)

lemma report_not_empty_branch:
  assumes "info \<noteq> []"
  shows "generate_sankhya_flow_script info \<noteq> generate_sankhya_flow_script []"
proof -
  obtain body where "generate_sankhya_flow_script info =
      Inr (header_line @ purpose_line @ found_line @ body @ footer_line)"
    using report_found[OF assms] by blast
  moreover have "generate_sankhya_flow_script [] =
      Inr (header_line @ purpose_line @ none_line @ footer_line)"
    by (simp add: generate_sankhya_flow_script_def bind_def)
  ultimately show ?thesis by (simp add: found_not_none)
qed

section \<open>The linear flow\<close>

lemma bind_assoc: "bind (bind m f) g = bind m (\<lambda>x. bind (f x) g)"
  by (cases m) (simp_all add: bind_def)

lemma bind_Inr: "bind (Inr v) f = f v"
  by (simp add: bind_def)

lemma bind_Inl: "bind (Inl e) f = Inl e"
  by (simp add: bind_def)

lemma set_unique_from: "set (unique_from seen xs) = set xs - set seen"
  by (induction xs arbitrary: seen) auto

lemma distinct_unique_from: "distinct (unique_from seen xs)"
  by (induction xs arbitrary: seen) (auto simp: set_unique_from)

lemma set_unique: "set (unique xs) = set xs"
  by (simp add: unique_def set_unique_from)

lemma distinct_unique: "distinct (unique xs)"
  by (simp add: unique_def distinct_unique_from)

lemma unique_Nil: "unique xs = [] \<longleftrightarrow> xs = []"
  using set_unique[of xs] by (metis set_empty)

lemma unique_from_distinct:
  "distinct xs \<Longrightarrow> set xs \<inter> set seen = {} \<Longrightarrow> unique_from seen xs = xs"
  by (induction xs arbitrary: seen) auto

lemma unique_distinct: "distinct xs \<Longrightarrow> unique xs = xs"
  by (simp add: unique_def unique_from_distinct)

lemma replay_nodes_append:
  "replay_nodes lib d (xs @ ys) = bind (replay_nodes lib d xs) (\<lambda>d. replay_nodes lib d ys)"
  by (induction xs arbitrary: d) (simp_all add: bind_Inr bind_assoc)

lemma replay_flows_append:
  "replay_flows lib d (xs @ ys) = bind (replay_flows lib d xs) (\<lambda>d. replay_flows lib d ys)"
  by (induction lib d xs rule: replay_flows.induct) (simp_all add: bind_Inr bind_assoc)

lemma for_activity_replay:
  "for_activity lib d activities =
     replay_nodes lib d
       (map (\<lambda>a. \<lparr>kind = Task, process = process_id, node_id = a, node_name = a\<rparr>) activities)"
  by (induction activities arbitrary: d) simp_all

lemma for_i_replay:
  "m < length activities \<Longrightarrow>
   for_i lib d activities (map int [k ..< m]) =
     replay_flows lib d
       (map (\<lambda>i. (process_id, activities ! i, activities ! Suc i)) [k ..< m])"
proof (induction "m - k" arbitrary: k d)
  case 0
  then show ?case by simp
next
  case (Suc n)
  then have k: "k < m" by simp
  have i0: "py_index activities (int k) = Inr (activities ! k)"
    using k Suc.prems by (simp add: py_index_def)
  have i1: "py_index activities (int k + 1) = Inr (activities ! Suc k)"
    using k Suc.prems by (simp add: py_index_def nat_add_distrib)
  have n: "n = m - Suc k" using Suc.hyps(2) by simp
  show ?case
    using k Suc.hyps(1)[OF n Suc.prems]
    by (simp add: upt_conv_Cons i0 i1 bind_Inr)
qed

lemma path_pairs:
  assumes "xs \<noteq> []"
  shows "(s, xs ! 0) # map (\<lambda>i. (xs ! i, xs ! Suc i)) [0 ..< length xs - 1]
           @ [(xs ! (length xs - 1), e)]
         = zip (s # xs) (xs @ [e])"
proof (rule nth_equalityI)
  show "length ((s, xs ! 0) # map (\<lambda>i. (xs ! i, xs ! Suc i)) [0 ..< length xs - 1]
           @ [(xs ! (length xs - 1), e)]) = length (zip (s # xs) (xs @ [e]))"
    using assms by (cases xs) simp_all
next
  fix i
  assume "i < length ((s, xs ! 0) # map (\<lambda>i. (xs ! i, xs ! Suc i)) [0 ..< length xs - 1]
           @ [(xs ! (length xs - 1), e)])"
  then have i: "i \<le> length xs" using assms by (cases xs) simp_all
  show "((s, xs ! 0) # map (\<lambda>i. (xs ! i, xs ! Suc i)) [0 ..< length xs - 1]
           @ [(xs ! (length xs - 1), e)]) ! i = zip (s # xs) (xs @ [e]) ! i"
  proof -
    consider "i = 0" | "0 < i" "i < length xs" | "0 < i" "i = length xs"
      using i by linarith
    then show ?thesis
    proof cases
      case 1
      then show ?thesis using assms by (simp add: nth_append)
    next
      case 2
      then have "i - 1 < length xs - 1" "Suc (i - 1) = i" by simp_all
      then show ?thesis using 2 by (simp add: nth_Cons' nth_append)
    next
      case 3
      then show ?thesis by (simp add: nth_Cons' nth_append)
    qed
  qed
qed

text \<open>Past line 90 the function is the replay of the linear diagram on the library.\<close>

lemma generate_bpmn_calls:
  assumes "event_log self = Some log"
    and "py_getitem log (str ''concept:name'') = Inr selection"
    and "py_unique selection = Inr activities"
  shows "generate_bpmn_xml_content lib self =
    replay lib
      \<lparr>processes = [(process_id, process_name)],
       nodes = map (\<lambda>a. \<lparr>kind = Task, process = process_id, node_id = a, node_name = a\<rparr>)
                   activities
               @ [\<lparr>kind = StartEvent, process = process_id, node_id = start_event_id,
                    node_name = start_event_name\<rparr>,
                  \<lparr>kind = EndEvent, process = process_id, node_id = end_event_id,
                    node_name = end_event_name\<rparr>],
       flows = (if activities = [] then []
                else map (\<lambda>(source, target). (process_id, source, target))
                       (zip (start_event_id # activities) (activities @ [end_event_id])))\<rparr>"
proof (cases "activities = []")
  case True
  show ?thesis
    using assms True
    by (simp add: generate_bpmn_xml_content_def replay_def bind_Inr bind_assoc)
next
  case False
  then have len1: "Suc 0 \<le> length activities" by (cases activities) simp_all
  have first: "py_index activities 0 = Inr (activities ! 0)"
    using False by (simp add: py_index_def)
  have final: "py_index activities (- 1) = Inr (activities ! (length activities - 1))"
    using False len1 by (simp add: py_index_def nat_diff_distrib' int_ops)
  have rng: "py_range (int (length activities) - 1) = map int [0 ..< length activities - Suc 0]"
    using len1 by (simp add: py_range_def nat_diff_distrib' int_ops)
  have m: "length activities - Suc 0 < length activities" using len1 by simp
  have pairs: "map (\<lambda>(source, target). (process_id, source, target))
                 (zip (start_event_id # activities) (activities @ [end_event_id]))
      = (process_id, start_event_id, activities ! 0)
        # map (\<lambda>i. (process_id, activities ! i, activities ! Suc i))
            [0 ..< length activities - Suc 0]
        @ [(process_id, activities ! (length activities - Suc 0), end_event_id)]"
    unfolding path_pairs[OF False, of start_event_id end_event_id, symmetric]
    by (simp add: comp_def)
  show ?thesis
    using assms False
    unfolding pairs
    by (simp add: generate_bpmn_xml_content_def replay_def bind_Inr bind_assoc
        for_activity_replay replay_nodes_append replay_flows_append first final rng
        for_i_replay[OF m])
qed

lemma replay_nodes_recording:
  "replay_nodes recording d ns = Inr (d\<lparr>nodes := nodes d @ ns\<rparr>)"
proof (induction ns arbitrary: d)
  case Nil
  show ?case by simp
next
  case (Cons n ns)
  show ?case
    by (cases "kind n") (simp_all add: recording_def add_node_def bind_Inr Cons[unfolded recording_def])
qed

lemma replay_flows_recording:
  "replay_flows recording d fs = Inr (d\<lparr>flows := flows d @ fs\<rparr>)"
  by (induction recording d fs rule: replay_flows.induct)
    (simp_all add: recording_def bind_Inr)

lemma replay_processes_recording:
  "replay_processes recording d ps = Inr (d\<lparr>processes := processes d @ ps\<rparr>)"
  by (induction recording d ps rule: replay_processes.induct)
    (simp_all add: recording_def bind_Inr)

lemma replay_recording: "replay recording g = Inr g"
proof -
  have "BPMNDiagram recording = Inr \<lparr>processes = [], nodes = [], flows = []\<rparr>"
    by (simp add: recording_def)
  moreover have "get_xml_as_string recording = Inr" by (simp add: recording_def)
  ultimately show ?thesis
    by (simp add: replay_def bind_Inr replay_processes_recording replay_nodes_recording
        replay_flows_recording)
qed

lemma generate_bpmn_line_90:
  assumes "generate_bpmn_xml_content lib self = Inr x"
  shows "\<exists>dataframe key column.
    event_log self = Some (DataFrame dataframe)
    \<and> filter (\<lambda>(name, column). name = str ''concept:name'') dataframe = [(key, column)]"
proof -
  obtain d where d: "BPMNDiagram lib = Inr d"
    using assms by (cases "BPMNDiagram lib") (simp_all add: generate_bpmn_xml_content_def bind_def)
  obtain d' where d': "add_process_to_diagram lib d process_id process_name = Inr d'"
    using assms d
    by (cases "add_process_to_diagram lib d process_id process_name")
      (simp_all add: generate_bpmn_xml_content_def bind_def)
  obtain log where log: "event_log self = Some log"
    using assms d d' by (cases "event_log self") (simp_all add: generate_bpmn_xml_content_def bind_def)
  obtain selection where sel: "py_getitem log (str ''concept:name'') = Inr selection"
    using assms d d' log
    by (cases "py_getitem log (str ''concept:name'')")
      (simp_all add: generate_bpmn_xml_content_def bind_def)
  obtain column where col: "selection = Series column"
    using assms d d' log sel
    by (cases selection) (simp_all add: generate_bpmn_xml_content_def bind_def)
  obtain dataframe where df: "log = DataFrame dataframe"
    using sel by (cases log) simp_all
  have "\<exists>key. filter (\<lambda>(name, column). name = str ''concept:name'') dataframe = [(key, column)]"
    using sel col df by (auto split: list.splits)
  then show ?thesis using log df by blast
qed

lemma generate_bpmn_recording:
  assumes "event_log self = Some (DataFrame dataframe)"
    and "filter (\<lambda>(name, column). name = str ''concept:name'') dataframe = [(key, column)]"
  shows "generate_bpmn_xml_content recording self =
    Inr \<lparr>processes = [(process_id, process_name)],
         nodes = map (\<lambda>a. \<lparr>kind = Task, process = process_id, node_id = a, node_name = a\<rparr>)
                     (unique column)
                 @ [\<lparr>kind = StartEvent, process = process_id, node_id = start_event_id,
                      node_name = start_event_name\<rparr>,
                    \<lparr>kind = EndEvent, process = process_id, node_id = end_event_id,
                      node_name = end_event_name\<rparr>],
         flows = (if unique column = [] then []
                  else map (\<lambda>(source, target). (process_id, source, target))
                         (zip (start_event_id # unique column) (unique column @ [end_event_id])))\<rparr>"
proof -
  have 1: "py_getitem (DataFrame dataframe) (str ''concept:name'') = Inr (Series column)"
    using assms(2) by simp
  have 2: "py_unique (Series column) = Inr (unique column)" by simp
  show ?thesis
    unfolding generate_bpmn_calls[OF assms(1) 1 2] by (rule replay_recording)
qed

text \<open>Whatever the library, the calls are those that the recording library shows.\<close>

lemma generate_bpmn_replay:
  assumes "generate_bpmn_xml_content recording self = Inr g"
  shows "generate_bpmn_xml_content lib self = replay lib g"
proof -
  obtain dataframe key column where e: "event_log self = Some (DataFrame dataframe)"
    and f: "filter (\<lambda>(name, column). name = str ''concept:name'') dataframe = [(key, column)]"
    using generate_bpmn_line_90[OF assms] by blast
  have 1: "py_getitem (DataFrame dataframe) (str ''concept:name'') = Inr (Series column)"
    using f by simp
  have 2: "py_unique (Series column) = Inr (unique column)" by simp
  show ?thesis
    using assms unfolding generate_bpmn_calls[OF e 1 2] replay_recording by simp
qed

lemma generate_bpmn_unloaded:
  assumes "event_log self = None"
  shows "generate_bpmn_xml_content lib self \<noteq> Inr x"
  using generate_bpmn_line_90[of lib self x] assms by auto

lemma generate_bpmn_event_log:
  assumes "event_log self = Some (EventLog log)"
  shows "generate_bpmn_xml_content lib self \<noteq> Inr x"
  using generate_bpmn_line_90[of lib self x] assms by auto

lemma generate_bpmn_after_load:
  assumes "load_and_convert_log ext self = Inr (log, self')"
  shows "generate_bpmn_xml_content lib self' \<noteq> Inr x"
proof -
  obtain l where "event_log self' = Some (EventLog l)"
    using assms
    by (auto simp: load_and_convert_log_def bind_def Let_def split: sum.splits)
  then show ?thesis by (rule generate_bpmn_event_log)
qed

section \<open>The bottleneck lines\<close>

lemma for_items_eq:
  "for_items info items = info @ map (\<lambda>(activity, m). bottleneck_line activity m) items"
  by (induction info items rule: for_items.induct) simp_all

lemma bottleneck_info_nonempty: "bottleneck_info_of bottlenecks \<noteq> []"
  by (simp add: bottleneck_info_of_def for_items_eq)

lemma identify_bottlenecks_result:
  assumes "identify_bottlenecks ext self = Inr (info, self')"
  shows "info \<noteq> []"
  using assms bottleneck_info_nonempty
  by (auto simp: identify_bottlenecks_def bind_def split: sum.splits prod.splits)

lemma main_reports_bottlenecks:
  assumes "main ext = Inr script"
  shows "\<exists>body. script = header_line @ purpose_line @ found_line @ body @ footer_line"
proof -
  obtain self info self' where i: "identify_bottlenecks ext self = Inr (info, self')"
    and g: "generate_sankhya_flow_script info = Inr script"
    using assms by (auto simp: main_def bind_def Let_def split: sum.splits prod.splits)
  have "info \<noteq> []" using i by (rule identify_bottlenecks_result)
  then show ?thesis using report_found g by fastforce
qed

section \<open>The claims\<close>

subsection \<open>Report templater\<close>

text \<open>
  Claim C1, as amended. The marker of the source is \<open>Atividade: \<close>. Let a line of the
  input hold the marker for the first time after \<open>pre\<close>, followed by a text \<open>name\<close>
  that contains neither a comma nor the marker, followed by a comma. Then the script
  holds, between the line announcing the bottlenecks and the footer, the line itself as a
  comment followed by the template for \<open>name\<close> with surrounding white space stripped;
  the template mentions that name in its example, query, message and error lines.
\<close>

theorem activity_template:
  assumes "b \<in> set bottlenecks"
    and "b = pre @ marker @ name @ comma @ rest"
    and "\<not> py_in marker pre" and "\<not> py_in marker name" and "\<not> py_in comma name"
  shows "\<exists>head tail. generate_sankhya_flow_script bottlenecks =
    Inr (header_line @ purpose_line @ found_line @ head
         @ comment_line b @ template (py_strip name) @ tail @ footer_line)"
proof -
  have "prefix comma (comma @ rest)" by simp
  then have t: "comma @ rest = [] \<or> prefix comma (comma @ rest) \<or> prefix marker (comma @ rest)"
    by blast
  have "py_in marker b" "activity_name_of b = Inr (py_strip name)"
    using activity_name_of_field[OF assms(2,3,4,5) t] by blast+
  then show ?thesis using assms(1) by (rule report_block)
qed

text \<open>The scenario of the claim with the marker of the source: the name is
  \<open>Approve\<close>, and the query line for it is part of the script.\<close>

theorem activity_template_witness:
  "\<exists>head tail. generate_sankhya_flow_script
       [str ''Atividade: Approve, Avg Wait: 3.2, Avg Service: 1.1''] =
     Inr (header_line @ purpose_line @ found_line @ head
          @ comment_line (str ''Atividade: Approve, Avg Wait: 3.2, Avg Service: 1.1'')
          @ example_line (str ''Approve'') @ var_line @ query_line (str ''Approve'') @ if_line
          @ message_line (str ''Approve'') @ logic_line @ else_line
          @ error_line (str ''Approve'') @ close_line @ tail @ footer_line)"
proof -
  let ?b = "str ''Atividade: Approve, Avg Wait: 3.2, Avg Service: 1.1''"
  have 1: "?b \<in> set [?b]" by simp
  have 2: "?b = [] @ marker @ str ''Approve'' @ comma @ str '' Avg Wait: 3.2, Avg Service: 1.1''"
    by (simp add: marker_def comma_def str_def)
  have 3: "\<not> py_in marker []" by (simp add: py_in_def marker_def str_def)
  have 4: "\<not> py_in marker (str ''Approve'')"
    by (simp add: py_in_def marker_def str_def sublist_code(3))
  have 5: "\<not> py_in comma (str ''Approve'')"
    by (simp add: py_in_def comma_def str_def sublist_code(3))
  have 6: "py_strip (str ''Approve'') = str ''Approve''"
    by (simp add: py_strip_def py_isspace_def str_def)
  show ?thesis using activity_template[OF 1 2 3 4 5] by (simp add: 6 template_def)
qed

text \<open>The scenario as the claim words it, with the marker \<open>Activity: \<close>: the line
  is copied as a comment and no template follows it, so no query line for \<open>Approve\<close>
  occurs in the script.\<close>

theorem activity_template_counterexample:
  "generate_sankhya_flow_script [str ''Activity: Approve, Avg Wait: 3.2, Avg Service: 1.1''] =
     Inr (header_line @ purpose_line @ found_line
          @ comment_line (str ''Activity: Approve, Avg Wait: 3.2, Avg Service: 1.1'')
          @ footer_line)
   \<and> \<not> sublist (query_line (str ''Approve''))
         (header_line @ purpose_line @ found_line
          @ comment_line (str ''Activity: Approve, Avg Wait: 3.2, Avg Service: 1.1'')
          @ footer_line)"
proof
  show "generate_sankhya_flow_script [str ''Activity: Approve, Avg Wait: 3.2, Avg Service: 1.1''] =
     Inr (header_line @ purpose_line @ found_line
          @ comment_line (str ''Activity: Approve, Avg Wait: 3.2, Avg Service: 1.1'')
          @ footer_line)"
    by (simp add: generate_sankhya_flow_script_def bind_def py_in_def marker_def str_def
        sublist_code(3))
  show "\<not> sublist (query_line (str ''Approve''))
         (header_line @ purpose_line @ found_line
          @ comment_line (str ''Activity: Approve, Avg Wait: 3.2, Avg Service: 1.1'')
          @ footer_line)"
    by (simp add: query_line_def header_line_def purpose_line_def found_line_def
        comment_line_def footer_line_def str_def sublist_code(3))
qed

text \<open>
  Claim C6. Whatever the input lines are, the script begins with the header line (and
  the purpose line after it) and ends with the footer line; in particular the function
  raises no error.
\<close>

theorem report_framing:
  "\<exists>body. generate_sankhya_flow_script bottlenecks =
     Inr (header_line @ purpose_line @ body @ footer_line)"
proof (cases "bottlenecks = []")
  case True
  then have "generate_sankhya_flow_script bottlenecks =
      Inr (header_line @ purpose_line @ none_line @ footer_line)"
    by (simp add: generate_sankhya_flow_script_def bind_def)
  then show ?thesis by blast
next
  case False
  then obtain body where "generate_sankhya_flow_script bottlenecks =
      Inr (header_line @ purpose_line @ (found_line @ body) @ footer_line)"
    using report_found by fastforce
  then show ?thesis by blast
qed

theorem report_framing_witness:
  "\<exists>body. generate_sankhya_flow_script [str ''Nenhum gargalo significativo identificado.''] =
     Inr (header_line @ purpose_line @ body @ footer_line)"
  using report_framing[of "[str ''Nenhum gargalo significativo identificado.'']"] .

text \<open>
  Claim C7. For the empty list of bottleneck lines the script is the two header lines,
  the single line saying that no bottleneck was found, and the footer line: nothing
  else stands between header and footer.
\<close>

theorem empty_report:
  "generate_sankhya_flow_script [] = Inr (header_line @ purpose_line @ none_line @ footer_line)"
  by (simp add: generate_sankhya_flow_script_def bind_def)

text \<open>
  Claim C8, as amended. Let a line hold the marker for the first time after \<open>pre\<close>, with
  no comma anywhere after it, and let \<open>name\<close> be the text that follows the marker up to
  the next occurrence of the marker or, if there is none, the end of the line. Then the
  extraction raises no error and yields \<open>name\<close> with surrounding white space stripped,
  and the script is complete: it holds the comment line and the template for that name
  between the line announcing the bottlenecks and the footer. The function has no warning
  to give: its only output is the script.
\<close>

theorem missing_comma:
  assumes "b \<in> set bottlenecks"
    and "b = pre @ marker @ name @ t"
    and "\<not> py_in marker pre" and "\<not> py_in comma (name @ t)"
    and "\<not> py_in marker name" and "t = [] \<or> prefix marker t"
  shows "activity_name_of b = Inr (py_strip name) \<and>
    (\<exists>head tail. generate_sankhya_flow_script bottlenecks =
      Inr (header_line @ purpose_line @ found_line @ head
           @ comment_line b @ template (py_strip name) @ tail @ footer_line))"
proof -
  have c: "\<not> py_in comma name"
    using assms(4) unfolding py_in_def
    by (metis sublist_append_rightI sublist_order.order.trans)
  have t: "t = [] \<or> prefix comma t \<or> prefix marker t" using assms(6) by blast
  have m: "py_in marker b" and n: "activity_name_of b = Inr (py_strip name)"
    using activity_name_of_field[OF assms(2,3,5) c t] by blast+
  show ?thesis using n report_block[OF m n assms(1)] by blast
qed

theorem missing_comma_witness:
  "activity_name_of (str ''Atividade: Approve '') = Inr (str ''Approve'') \<and>
    (\<exists>head tail. generate_sankhya_flow_script [str ''Atividade: Approve ''] =
      Inr (header_line @ purpose_line @ found_line @ head
           @ comment_line (str ''Atividade: Approve '') @ template (str ''Approve'') @ tail
           @ footer_line))"
proof -
  let ?b = "str ''Atividade: Approve ''"
  have 1: "?b \<in> set [?b]" by simp
  have 2: "?b = [] @ marker @ str ''Approve '' @ []"
    by (simp add: marker_def str_def)
  have 3: "\<not> py_in marker []" by (simp add: py_in_def marker_def str_def)
  have 4: "\<not> py_in comma (str ''Approve '' @ [])"
    by (simp add: py_in_def comma_def str_def sublist_code(3))
  have 5: "\<not> py_in marker (str ''Approve '')"
    by (simp add: py_in_def marker_def str_def sublist_code(3))
  have 6: "([]::pystr) = [] \<or> prefix marker []" by simp
  have 7: "py_strip (str ''Approve '') = str ''Approve''"
    by (simp add: py_strip_def py_isspace_def str_def)
  show ?thesis using missing_comma[OF 1 2 3 4 5 6] by (simp only: 7)
qed

text \<open>A line with the marker and no comma whose remainder ends in a blank: the name
  is not the whole remainder, the blank is stripped.\<close>

theorem missing_comma_counterexample:
  "py_in marker (str ''Atividade: Approve '')
   \<and> \<not> py_in comma (str ''Atividade: Approve '')
   \<and> str ''Atividade: Approve '' = marker @ str ''Approve ''
   \<and> activity_name_of (str ''Atividade: Approve '') \<noteq> Inr (str ''Approve '')"
  by (simp add: py_in_def marker_def comma_def str_def sublist_code(3) activity_name_of_def
      py_split_def py_index_def bind_def py_strip_def py_isspace_def)

subsection \<open>Linear flow\<close>

text \<open>
  Claim C2, as amended. Let \<open>self.event_log\<close> hold a data frame with exactly one
  column named \<open>concept:name\<close>, not empty, none of whose cells is the identifier of the
  start event or of the end event, and let the activities be the \<open>n\<close> distinct values
  of that column in the order of their first appearance. Then the source adds to the
  diagram \<open>n + 2\<close> nodes, one task per activity in that order and then the start and the
  end event, and \<open>n + 1\<close> flows, which are the consecutive pairs of the sequence start,
  activities, end; no node occurs twice in that sequence, so the flows form one simple
  path from start to end.
\<close>

theorem linear_flow:
  assumes "event_log self = Some (DataFrame dataframe)"
    and "filter (\<lambda>(name, column). name = str ''concept:name'') dataframe
         = [(str ''concept:name'', column)]"
    and "column \<noteq> []"
    and "start_event_id \<notin> set column" and "end_event_id \<notin> set column"
  shows "\<exists>d. generate_bpmn_xml_content recording self = Inr d
    \<and> map node_id (nodes d) = unique column @ [start_event_id, end_event_id]
    \<and> map kind (nodes d) = replicate (length (unique column)) Task @ [StartEvent, EndEvent]
    \<and> length (nodes d) = length (unique column) + 2
    \<and> map (\<lambda>(p, source, target). (source, target)) (flows d) =
        zip (start_event_id # unique column) (unique column @ [end_event_id])
    \<and> length (flows d) = length (unique column) + 1
    \<and> distinct (start_event_id # unique column @ [end_event_id])"
proof -
  have ne: "unique column \<noteq> []" using assms(3) by (simp add: unique_Nil)
  have se: "start_event_id \<noteq> end_event_id"
    by (simp add: start_event_id_def end_event_id_def str_def)
  have k: "map (\<lambda>a. Task) (unique column) = replicate (length (unique column)) Task"
    by (simp add: map_replicate_const)
  show ?thesis
    unfolding generate_bpmn_recording[OF assms(1,2)]
    using ne se assms(4,5) distinct_unique[of column]
    by (simp add: comp_def k case_prod_unfold set_unique)
qed

text \<open>The scenario of the claim, with one label occurring twice in the column.\<close>

theorem linear_flow_witness:
  "\<exists>d. generate_bpmn_xml_content recording
        \<lparr>log_path = [], event_log = Some (DataFrame
           [(str ''case:concept:name'', [str ''1'', str ''1'', str ''2'', str ''2'']),
            (str ''concept:name'',
               [str ''Receive Order'', str ''Approve'', str ''Receive Order'', str ''Ship''])]
           :: unit log_object)\<rparr> = Inr d
    \<and> map node_id (nodes d) =
        [str ''Receive Order'', str ''Approve'', str ''Ship'', start_event_id, end_event_id]
    \<and> map kind (nodes d) = [Task, Task, Task, StartEvent, EndEvent]
    \<and> length (nodes d) = 5
    \<and> map (\<lambda>(p, source, target). (source, target)) (flows d) =
        [(start_event_id, str ''Receive Order''), (str ''Receive Order'', str ''Approve''),
         (str ''Approve'', str ''Ship''), (str ''Ship'', end_event_id)]
    \<and> length (flows d) = 4
    \<and> distinct [start_event_id, str ''Receive Order'', str ''Approve'', str ''Ship'',
                 end_event_id]"
proof -
  let ?col = "[str ''Receive Order'', str ''Approve'', str ''Receive Order'', str ''Ship'']"
  let ?df = "[(str ''case:concept:name'', [str ''1'', str ''1'', str ''2'', str ''2'']),
              (str ''concept:name'', ?col)]"
  let ?self = "\<lparr>log_path = [], event_log = Some (DataFrame ?df :: unit log_object)\<rparr>"
  have 1: "event_log ?self = Some (DataFrame ?df)" by simp
  have 2: "filter (\<lambda>(name, column). name = str ''concept:name'') ?df
      = [(str ''concept:name'', ?col)]" by (simp add: str_def)
  have 3: "?col \<noteq> []" by simp
  have 4: "start_event_id \<notin> set ?col" by (simp add: start_event_id_def str_def)
  have 5: "end_event_id \<notin> set ?col" by (simp add: end_event_id_def str_def)
  have u: "unique ?col = [str ''Receive Order'', str ''Approve'', str ''Ship'']"
    by (simp add: unique_def str_def)
  show ?thesis using linear_flow[OF 1 2 3 4 5] unfolding u by (simp add: numeral_eq_Suc)
qed

text \<open>A single activity whose label is the identifier of the start event: the task
  and the start event share their identifier, and the first flow leads from that
  identifier to itself.\<close>

theorem linear_flow_counterexample:
  "generate_bpmn_xml_content recording
     \<lparr>log_path = [], event_log = Some (DataFrame [(str ''concept:name'', [str ''StartEvent_1''])]
        :: unit log_object)\<rparr> =
   Inr \<lparr>processes = [(process_id, process_name)],
        nodes = [\<lparr>kind = Task, process = process_id, node_id = start_event_id,
                   node_name = start_event_id\<rparr>,
                 \<lparr>kind = StartEvent, process = process_id, node_id = start_event_id,
                   node_name = start_event_name\<rparr>,
                 \<lparr>kind = EndEvent, process = process_id, node_id = end_event_id,
                   node_name = end_event_name\<rparr>],
        flows = [(process_id, start_event_id, start_event_id),
                 (process_id, start_event_id, end_event_id)]\<rparr>
   \<and> distinct [str ''StartEvent_1'']
   \<and> \<not> distinct [start_event_id, str ''StartEvent_1'', end_event_id]"
proof -
  let ?df = "[(str ''concept:name'', [str ''StartEvent_1''])]"
  let ?self = "\<lparr>log_path = [], event_log = Some (DataFrame ?df :: unit log_object)\<rparr>"
  have 1: "event_log ?self = Some (DataFrame ?df)" by simp
  have 2: "filter (\<lambda>(name, column). name = str ''concept:name'') ?df
      = [(str ''concept:name'', [str ''StartEvent_1''])]" by simp
  show ?thesis
    unfolding generate_bpmn_recording[OF 1 2]
    by (simp add: unique_def start_event_id_def)
qed

text \<open>
  Claim C5. Let \<open>self.event_log\<close> hold a data frame whose one \<open>concept:name\<close>
  column is empty, so that the activity sequence is empty. Then the source adds to the
  diagram exactly two nodes, the start event and the end event, and no flow.
\<close>

theorem empty_flow:
  assumes "event_log self = Some (DataFrame dataframe)"
    and "filter (\<lambda>(name, column). name = str ''concept:name'') dataframe
         = [(str ''concept:name'', [])]"
  shows "generate_bpmn_xml_content recording self =
    Inr \<lparr>processes = [(process_id, process_name)],
         nodes = [\<lparr>kind = StartEvent, process = process_id, node_id = start_event_id,
                    node_name = start_event_name\<rparr>,
                  \<lparr>kind = EndEvent, process = process_id, node_id = end_event_id,
                    node_name = end_event_name\<rparr>],
         flows = []\<rparr>"
  unfolding generate_bpmn_recording[OF assms] by (simp add: unique_def)

theorem empty_flow_witness:
  "generate_bpmn_xml_content recording
     \<lparr>log_path = [], event_log = Some (DataFrame
        [(str ''case:concept:name'', []), (str ''concept:name'', []),
         (str ''time:timestamp'', [])] :: unit log_object)\<rparr> =
    Inr \<lparr>processes = [(process_id, process_name)],
         nodes = [\<lparr>kind = StartEvent, process = process_id, node_id = start_event_id,
                    node_name = start_event_name\<rparr>,
                  \<lparr>kind = EndEvent, process = process_id, node_id = end_event_id,
                    node_name = end_event_name\<rparr>],
         flows = []\<rparr>"
proof -
  let ?df = "[(str ''case:concept:name'', []), (str ''concept:name'', []),
              (str ''time:timestamp'', [])]"
  let ?self = "\<lparr>log_path = [], event_log = Some (DataFrame ?df :: unit log_object)\<rparr>"
  have 1: "event_log ?self = Some (DataFrame ?df)" by simp
  have 2: "filter (\<lambda>(name, column). name = str ''concept:name'') ?df
      = [(str ''concept:name'', [])]" by (simp add: str_def)
  show ?thesis using empty_flow[OF 1 2] .
qed

text \<open>
  Claim C9 says that the function has no error conditions. It has. Called on an analyzer
  whose log has not been loaded it raises \<open>TypeError\<close> at line 90, which subscripts
  \<open>self.event_log\<close> without the test for \<open>None\<close> that \<open>discover_process_model\<close>,
  \<open>analyze_conformance\<close> and \<open>identify_bottlenecks\<close> make before they use it; and on
  the event log that \<open>load_and_convert_log\<close> stores it raises \<open>TypeError\<close> too.
\<close>

theorem flow_raises:
  "generate_bpmn_xml_content recording
     (init (str ''sankhya_processed_data.csv'') :: unit analyzer) = Inl TypeError
   \<and> generate_bpmn_xml_content recording
     \<lparr>log_path = str ''sankhya_processed_data.csv'', event_log = Some (EventLog ())\<rparr>
     = Inl TypeError"
  by (simp add: generate_bpmn_xml_content_def init_def recording_def bind_def)

subsection \<open>Bottleneck lines\<close>

text \<open>
  Claim C10. Whenever the log is available and the bottleneck analysis returns, whatever
  its result, \<open>identify_bottlenecks\<close> returns a non-empty list of lines; for the empty
  result the list is the single line saying that no significant bottleneck was
  identified. Rendering that list therefore takes the branch that announces bottlenecks,
  never the branch for an empty input.
\<close>

theorem identify_bottlenecks_nonempty:
  assumes "loaded_log ext self = Inr (log, self')"
    and "bottleneck_analysis_apply ext log = Inr bottlenecks"
  shows "\<exists>info. identify_bottlenecks ext self = Inr (info, self')
    \<and> info \<noteq> []
    \<and> (bottlenecks = [] \<longrightarrow> info = [no_bottleneck])
    \<and> (\<exists>body. generate_sankhya_flow_script info =
          Inr (header_line @ purpose_line @ found_line @ body @ footer_line))
    \<and> generate_sankhya_flow_script info \<noteq> generate_sankhya_flow_script []"
proof -
  have "identify_bottlenecks ext self = Inr (bottleneck_info_of bottlenecks, self')"
    using assms by (simp add: identify_bottlenecks_def bind_def)
  moreover have "bottlenecks = [] \<longrightarrow> bottleneck_info_of bottlenecks = [no_bottleneck]"
    by (simp add: bottleneck_info_of_def)
  ultimately show ?thesis
    using bottleneck_info_nonempty[of bottlenecks]
      report_found[OF bottleneck_info_nonempty[of bottlenecks]]
      report_not_empty_branch[OF bottleneck_info_nonempty[of bottlenecks]]
    by blast
qed

theorem identify_bottlenecks_nonempty_witness:
  "\<exists>info. identify_bottlenecks
       \<lparr>read_csv = \<lambda>path. Inr [], convert_to_event_log = \<lambda>dataframe. Inr dataframe,
        alpha_miner_apply = \<lambda>log. Inr (), bottleneck_analysis_apply = \<lambda>log. Inr []\<rparr>
       (init []) = Inr (info, \<lparr>log_path = [], event_log = Some (EventLog [])\<rparr>)
    \<and> info \<noteq> []
    \<and> info = [no_bottleneck]
    \<and> (\<exists>body. generate_sankhya_flow_script info =
          Inr (header_line @ purpose_line @ found_line @ body @ footer_line))
    \<and> generate_sankhya_flow_script info \<noteq> generate_sankhya_flow_script []"
proof -
  let ?ext = "\<lparr>read_csv = \<lambda>path. Inr [], convert_to_event_log = \<lambda>dataframe. Inr dataframe,
        alpha_miner_apply = \<lambda>log. Inr (), bottleneck_analysis_apply = \<lambda>log. Inr []\<rparr>"
  have 1: "loaded_log ?ext (init []) =
      Inr (EventLog [], \<lparr>log_path = [], event_log = Some (EventLog [])\<rparr>)"
    by (simp add: loaded_log_def init_def load_and_convert_log_def bind_def rename_def)
  have 2: "bottleneck_analysis_apply ?ext (EventLog []) = Inr []" by simp
  show ?thesis using identify_bottlenecks_nonempty[OF 1 2] by simp
qed

end
